theory Spec2Isabelle
  imports Main "HOL-Library.Word" "HOL-Library.AList"
begin

unbundle bit_operations_syntax

section \<open>Python values, exceptions and dictionaries\<close>

text \<open>
  Strings are byte strings holding the UTF-8 encoding of the Python \<open>str\<close>; on them
  \<open>pw.encode("utf-8")\<close> is the list of the bytes themselves, and splitting at the ASCII
  character \<open>@\<close> is the same on bytes and on code points.

  \<open>val\<close> is the JSON-like universe of \<open>Any\<close>: what a request body can carry and what the
  fields of the two schemas hold.
\<close>

datatype val =
    VNone
  | VBool bool
  | VInt int
  | VStr string
  | VList "val list"
  | VDict "(string \<times> val) list"

text \<open>
  The two exceptions the handlers can see: FastAPI's \<open>HTTPException(status_code, detail)\<close>
  and bson's \<open>InvalidId\<close>. Both are subclasses of Python's \<open>Exception\<close>.
\<close>

datatype exception =
    HTTPException (status_code: int) (detail: string)
  | InvalidId

text \<open>A bson ObjectId is a 12-byte value.\<close>

type_synonym ObjectId = "96 word"

text \<open>
  A Python \<open>dict\<close> as the handlers use it: a document, a query filter or a response body.
  The entry under the key \<open>"_id"\<close> is kept apart in \<open>doc_id\<close>, because it is the only
  entry that holds an ObjectId; every other entry is in \<open>entries\<close>, in insertion order.
\<close>

record pydict =
  doc_id :: "ObjectId option"
  entries :: "(string \<times> val) list"

definition empty_dict :: "pydict" where
  "empty_dict = \<lparr>doc_id = None, entries = []\<rparr>"

text \<open>Truth value of an optional dict: \<open>None\<close> and \<open>{}\<close> are false.\<close>

fun truthy :: "pydict option \<Rightarrow> bool" where
  "truthy None = False"
| "truthy (Some d) = (d \<noteq> empty_dict)"

section \<open>Hexadecimal text and ObjectId\<close>

definition hexdigit :: "nat \<Rightarrow> char" where
  "hexdigit n = ''0123456789abcdef'' ! n"

text \<open>\<open>to_hex k n\<close>: the \<open>k\<close> lowest hexadecimal digits of \<open>n\<close>, most significant first.\<close>

fun to_hex :: "nat \<Rightarrow> nat \<Rightarrow> string" where
  "to_hex 0 n = []"
| "to_hex (Suc k) n = to_hex k (n div 16) @ [hexdigit (n mod 16)]"

definition hexval :: "char \<Rightarrow> nat option" where
  "hexval c =
     (let n = (of_char c :: nat) in
      if 48 \<le> n \<and> n \<le> 57 then Some (n - 48)
      else if 97 \<le> n \<and> n \<le> 102 then Some (n - 87)
      else if 65 \<le> n \<and> n \<le> 70 then Some (n - 55)
      else None)"

definition from_hex :: "string \<Rightarrow> nat" where
  "from_hex s = foldl (\<lambda>a c. 16 * a + (case hexval c of Some d \<Rightarrow> d | None \<Rightarrow> 0)) 0 s"

text \<open>\<open>str(oid)\<close>: 24 lower-case hexadecimal digits.\<close>

definition str_ObjectId :: "ObjectId \<Rightarrow> string" where
  "str_ObjectId oid = to_hex 24 (unat oid)"

text \<open>
  \<open>ObjectId(s)\<close> for a string \<open>s\<close>: bson accepts a string of 24 hexadecimal digits (either
  case) and raises \<open>InvalidId\<close> otherwise. (bson reads the digits with \<open>bytes.fromhex\<close>,
  which also skips ASCII whitespace; a 24-character string with whitespace in it gives no
  12-byte identifier and is taken as invalid here.)
\<close>

definition ObjectId :: "string \<Rightarrow> exception + ObjectId" where
  "ObjectId s =
     (if length s = 24 \<and> list_all (\<lambda>c. hexval c \<noteq> None) s
      then Inr (of_nat (from_hex s))
      else Inl InvalidId)"

section \<open>SHA-256 and \<open>hash_password\<close>\<close>

type_synonym u32 = "32 word"

definition K :: "u32 list" where
  "K =
   [1116352408, 1899447441, 3049323471, 3921009573, 961987163, 1508970993,
    2453635748, 2870763221, 3624381080, 310598401, 607225278, 1426881987,
    1925078388, 2162078206, 2614888103, 3248222580, 3835390401, 4022224774,
    264347078, 604807628, 770255983, 1249150122, 1555081692, 1996064986,
    2554220882, 2821834349, 2952996808, 3210313671, 3336571891, 3584528711,
    113926993, 338241895, 666307205, 773529912, 1294757372, 1396182291,
    1695183700, 1986661051, 2177026350, 2456956037, 2730485921, 2820302411,
    3259730800, 3345764771, 3516065817, 3600352804, 4094571909, 275423344,
    430227734, 506948616, 659060556, 883997877, 958139571, 1322822218,
    1537002063, 1747873779, 1955562222, 2024104815, 2227730452, 2361852424,
    2428436474, 2756734187, 3204031479, 3329325298]"

definition H0 :: "u32 list" where
  "H0 = [1779033703, 3144134277, 1013904242, 2773480762,
         1359893119, 2600822924, 528734635, 1541459225]"

definition Ch :: "u32 \<Rightarrow> u32 \<Rightarrow> u32 \<Rightarrow> u32" where
  "Ch x y z = (x AND y) XOR (NOT x AND z)"

definition Maj :: "u32 \<Rightarrow> u32 \<Rightarrow> u32 \<Rightarrow> u32" where
  "Maj x y z = (x AND y) XOR (x AND z) XOR (y AND z)"

definition Sigma0 :: "u32 \<Rightarrow> u32" where
  "Sigma0 x = word_rotr 2 x XOR word_rotr 13 x XOR word_rotr 22 x"

definition Sigma1 :: "u32 \<Rightarrow> u32" where
  "Sigma1 x = word_rotr 6 x XOR word_rotr 11 x XOR word_rotr 25 x"

definition sigma0 :: "u32 \<Rightarrow> u32" where
  "sigma0 x = word_rotr 7 x XOR word_rotr 18 x XOR drop_bit 3 x"

definition sigma1 :: "u32 \<Rightarrow> u32" where
  "sigma1 x = word_rotr 17 x XOR word_rotr 19 x XOR drop_bit 10 x"

text \<open>Padding: the bit 1, zeros up to 56 modulo 64 bytes, the bit length on 8 bytes.\<close>

definition be64 :: "nat \<Rightarrow> 8 word list" where
  "be64 n = map (\<lambda>i. of_nat (n div 256 ^ (7 - i))) [0..<8]"

definition pad :: "8 word list \<Rightarrow> 8 word list" where
  "pad m = m @ [128] @ replicate ((119 - length m mod 64) mod 64) 0 @ be64 (8 * length m)"

fun be_words :: "8 word list \<Rightarrow> u32 list" where
  "be_words (a # b # c # d # rest) =
     (push_bit 24 (ucast a) OR push_bit 16 (ucast b) OR push_bit 8 (ucast c) OR ucast d)
       # be_words rest"
| "be_words _ = []"

fun blocks :: "nat \<Rightarrow> u32 list \<Rightarrow> u32 list list" where
  "blocks 0 ws = []"
| "blocks (Suc n) ws = take 16 ws # blocks n (drop 16 ws)"

text \<open>The message schedule: \<open>n\<close> more words after those of \<open>w\<close>.\<close>

fun schedule :: "nat \<Rightarrow> u32 list \<Rightarrow> u32 list" where
  "schedule 0 w = w"
| "schedule (Suc n) w =
     (let t = length w in
      schedule n (w @ [sigma1 (w ! (t - 2)) + w ! (t - 7) + sigma0 (w ! (t - 15)) + w ! (t - 16)]))"

type_synonym sha_state = "u32 \<times> u32 \<times> u32 \<times> u32 \<times> u32 \<times> u32 \<times> u32 \<times> u32"

fun round :: "u32 \<times> u32 \<Rightarrow> sha_state \<Rightarrow> sha_state" where
  "round (k, w) (a, b, c, d, e, f, g, h) =
     (let T1 = h + Sigma1 e + Ch e f g + k + w;
          T2 = Sigma0 a + Maj a b c
      in (T1 + T2, a, b, c, d + T1, e, f, g))"

fun compress :: "sha_state \<Rightarrow> u32 list \<Rightarrow> sha_state" where
  "compress (a, b, c, d, e, f, g, h) blk =
     (case fold round (zip K (schedule 48 blk)) (a, b, c, d, e, f, g, h) of
        (a', b', c', d', e', f', g', h') \<Rightarrow>
          (a + a', b + b', c + c', d + d', e + e', f + f', g + g', h + h'))"

definition sha256 :: "8 word list \<Rightarrow> u32 list" where
  "sha256 m =
     (let ws = be_words (pad m) in
      case foldl compress
             (H0 ! 0, H0 ! 1, H0 ! 2, H0 ! 3, H0 ! 4, H0 ! 5, H0 ! 6, H0 ! 7)
             (blocks (length ws div 16) ws) of
        (a, b, c, d, e, f, g, h) \<Rightarrow> [a, b, c, d, e, f, g, h])"

definition hexdigest :: "u32 list \<Rightarrow> string" where
  "hexdigest ws = concat (map (\<lambda>w. to_hex 8 (unat w)) ws)"

definition encode_utf8 :: "string \<Rightarrow> 8 word list" where
  "encode_utf8 s = map (\<lambda>c. of_nat (of_char c)) s"

definition hash_password :: "string \<Rightarrow> string" where
  "hash_password pw = hexdigest (sha256 (encode_utf8 pw))"

section \<open>The document store\<close>

text \<open>
  A collection is the list of its documents in insertion order; a database maps a
  collection name to its collection (\<open>db["user"]\<close>). The module-level handle \<open>db\<close> is
  \<open>None\<close> when the store is unavailable, so the state the handlers see is a
  \<open>database option\<close>.
\<close>

type_synonym collection = "pydict list"
type_synonym database = "string \<Rightarrow> collection"

text \<open>A query filter is a dict of expected values; a document matches when it has each.\<close>

definition matches :: "pydict \<Rightarrow> pydict \<Rightarrow> bool" where
  "matches flt d =
     ((case doc_id flt of None \<Rightarrow> True | Some i \<Rightarrow> doc_id d = Some i) \<and>
      list_all (\<lambda>(k, v). map_of (entries d) k = Some v) (entries flt))"

text \<open>pymongo's \<open>find_one(filter)\<close>: the first matching document, or \<open>None\<close>.\<close>

definition find_one :: "pydict \<Rightarrow> collection \<Rightarrow> pydict option" where
  "find_one flt c = List.find (matches flt) c"

text \<open>
  pymongo's \<open>update_one(filter, {"$set": upd})\<close>: the first matching document gets the
  entries of \<open>upd\<close>; the result carries \<open>matched_count\<close>.
\<close>

fun update_one :: "pydict \<Rightarrow> (string \<times> val) list \<Rightarrow> collection \<Rightarrow> nat \<times> collection" where
  "update_one flt upd [] = (0, [])"
| "update_one flt upd (d # ds) =
     (if matches flt d
      then (1, d\<lparr>entries := fold (\<lambda>(k, v). AList.update k v) upd (entries d)\<rparr> # ds)
      else (case update_one flt upd ds of (n, ds') \<Rightarrow> (n, d # ds')))"

section \<open>Schemas and request models\<close>

text \<open>
  The two schemas of \<open>schemas.py\<close>, with the fields in the order of their declaration:
  \<open>User(email, username, password_hash, plan)\<close> and
  \<open>Character(user_id, prompt, settings, preview_url)\<close>.
\<close>

datatype model =
    User string string string string
  | Character string string "(string \<times> val) list" "string option"

fun model_dump :: "model \<Rightarrow> pydict" where
  "model_dump (User email username password_hash plan) =
     \<lparr>doc_id = None,
      entries = [(''email'', VStr email), (''username'', VStr username),
                 (''password_hash'', VStr password_hash), (''plan'', VStr plan)]\<rparr>"
| "model_dump (Character user_id prompt settings preview_url) =
     \<lparr>doc_id = None,
      entries = [(''user_id'', VStr user_id), (''prompt'', VStr prompt),
                 (''settings'', VDict settings),
                 (''preview_url'', (case preview_url of None \<Rightarrow> VNone | Some u \<Rightarrow> VStr u))]\<rparr>"

record AuthPayload =
  email :: string
  password :: string
  username :: "string option"

record CharacterPayload =
  prompt :: string
  settings :: "(string \<times> val) list"

record PlanPayload =
  user_id :: string
  plan :: string

section \<open>The module \<open>database\<close>\<close>

text \<open>
  Modelled from the spec: \<open>create_document(collection, record)\<close> of the module \<open>database\<close>,
  which is not among the source files. It serialises the record to a document, inserts
  it, and returns the newly assigned identifier as a string. The identifier the store
  assigns is the argument \<open>new_id\<close>.
\<close>

definition create_document :: "string \<Rightarrow> model \<Rightarrow> ObjectId \<Rightarrow> database \<Rightarrow> string \<times> database" where
  "create_document collection data new_id d =
     (str_ObjectId new_id,
      d(collection := d collection @ [(model_dump data)\<lparr>doc_id := Some new_id\<rparr>]))"

text \<open>
  Modelled from the spec: \<open>get_documents(collection, filter, limit)\<close> of the module
  \<open>database\<close>, which is not among the source files. It returns the matching documents
  in the store's order, \<open>limit\<close> being the maximum result count.
\<close>

definition get_documents :: "string \<Rightarrow> pydict \<Rightarrow> int \<Rightarrow> database \<Rightarrow> pydict list" where
  "get_documents collection flt limit d = take (nat limit) (filter (matches flt) (d collection))"

section \<open>Helpers of \<open>main.py\<close>\<close>

text \<open>
  \<open>to_str_id\<close>: a false document (\<open>None\<close> or \<open>{}\<close>) is returned as it is; otherwise the
  copy loses \<open>"_id"\<close> and gains \<open>"id"\<close>, the identifier as a string (an ObjectId is always
  true, so \<open>d.get("_id")\<close> is true exactly when the key is there).
\<close>

definition to_str_id :: "pydict option \<Rightarrow> pydict option" where
  "to_str_id doc =
     (if \<not> truthy doc then doc
      else (case doc of
              None \<Rightarrow> None
            | Some d \<Rightarrow>
                (case doc_id d of
                   None \<Rightarrow> Some d
                 | Some i \<Rightarrow>
                     Some \<lparr>doc_id = None,
                           entries = AList.update ''id'' (VStr (str_ObjectId i)) (entries d)\<rparr>)))"

text \<open>\<open>a or b\<close> on an optional string: \<open>None\<close> and the empty string are false.\<close>

fun or_str :: "string option \<Rightarrow> string \<Rightarrow> string" where
  "or_str None b = b"
| "or_str (Some a) b = (if a = [] then b else a)"

text \<open>\<open>s.split("@")[0]\<close>: the part of \<open>s\<close> before its first \<open>@\<close>, all of \<open>s\<close> if it has none.\<close>

definition split_at_0 :: "string \<Rightarrow> string" where
  "split_at_0 s = takeWhile (\<lambda>c. c \<noteq> CHR ''@'') s"

section \<open>The handlers\<close>

text \<open>
  A handler takes the request and the store and returns the response or the exception
  it raises; a handler that writes also returns the store. \<open>signup\<close> and
  \<open>generate_character\<close> take the identifier that the store assigns to the new document.
\<close>

definition signup ::
  "AuthPayload \<Rightarrow> ObjectId \<Rightarrow> database option \<Rightarrow> (exception + pydict option) \<times> database option" where
  "signup payload new_id db =
     (case db of
        None \<Rightarrow> (Inl (HTTPException 500 ''Database not available''), db)
      | Some d \<Rightarrow>
          (let existing = find_one \<lparr>doc_id = None, entries = [(''email'', VStr (email payload))]\<rparr> (d ''user'')
           in if truthy existing
              then (Inl (HTTPException 400 ''Email already registered''), db)
              else
                (let name = or_str (username payload) (split_at_0 (email payload));
                     user = User (email payload) name (hash_password (password payload)) ''free''
                 in case create_document ''user'' user new_id d of
                      (uid, d') \<Rightarrow>
                        (case ObjectId uid of
                           Inl e \<Rightarrow> (Inl e, Some d')
                         | Inr i \<Rightarrow>
                             (Inr (to_str_id (find_one \<lparr>doc_id = Some i, entries = []\<rparr> (d' ''user''))),
                              Some d')))))"

definition login :: "AuthPayload \<Rightarrow> database option \<Rightarrow> exception + pydict option" where
  "login payload db =
     (case db of
        None \<Rightarrow> Inl (HTTPException 500 ''Database not available'')
      | Some d \<Rightarrow>
          (let user = find_one
                 \<lparr>doc_id = None,
                  entries = [(''email'', VStr (email payload)),
                             (''password_hash'', VStr (hash_password (password payload)))]\<rparr>
                 (d ''user'')
           in if \<not> truthy user
              then Inl (HTTPException 401 ''Invalid credentials'')
              else Inr (to_str_id user)))"

text \<open>
  The body of the \<open>try\<close> block of \<open>me\<close>; \<open>except Exception\<close> then turns whatever it
  raises, the \<open>HTTPException\<close> of the missing user included, into the status 400.
\<close>

definition me_try :: "string \<Rightarrow> database \<Rightarrow> exception + pydict option" where
  "me_try uid d =
     (case ObjectId uid of
        Inl e \<Rightarrow> Inl e
      | Inr i \<Rightarrow>
          (let user = find_one \<lparr>doc_id = Some i, entries = []\<rparr> (d ''user'')
           in if \<not> truthy user
              then Inl (HTTPException 404 ''User not found'')
              else Inr (to_str_id user)))"

definition me :: "string \<Rightarrow> database option \<Rightarrow> exception + pydict option" where
  "me uid db =
     (case db of
        None \<Rightarrow> Inl (HTTPException 500 ''Database not available'')
      | Some d \<Rightarrow>
          (case me_try uid d of
             Inl e \<Rightarrow> Inl (HTTPException 400 ''Invalid user id'')
           | Inr r \<Rightarrow> Inr r))"

definition preview :: string where
  "preview = ''https://images.unsplash.com/photo-1542272604-787c3835535d?q=80&w=1200&auto=format&fit=crop''"

definition generate_character ::
  "CharacterPayload \<Rightarrow> string option \<Rightarrow> ObjectId \<Rightarrow> database option
     \<Rightarrow> (exception + pydict option) \<times> database option" where
  "generate_character payload uid new_id db =
     (case db of
        None \<Rightarrow> (Inl (HTTPException 500 ''Database not available''), db)
      | Some d \<Rightarrow>
          (let char = Character (or_str uid ''guest'') (prompt payload) (settings payload) (Some preview)
           in case create_document ''character'' char new_id d of
                (char_id, d') \<Rightarrow>
                  (case ObjectId char_id of
                     Inl e \<Rightarrow> (Inl e, Some d')
                   | Inr i \<Rightarrow>
                       (Inr (to_str_id (find_one \<lparr>doc_id = Some i, entries = []\<rparr> (d' ''character''))),
                        Some d'))))"

text \<open>\<open>limit\<close> is an optional query parameter: \<open>limit: int = 20\<close>.\<close>

definition list_characters ::
  "string \<Rightarrow> int option \<Rightarrow> database option \<Rightarrow> exception + pydict option list" where
  "list_characters uid limit db =
     (case db of
        None \<Rightarrow> Inl (HTTPException 500 ''Database not available'')
      | Some d \<Rightarrow>
          (let docs = get_documents ''character''
                        \<lparr>doc_id = None, entries = [(''user_id'', VStr uid)]\<rparr>
                        (case limit of None \<Rightarrow> 20 | Some l \<Rightarrow> l) d
           in Inr (map (\<lambda>x. to_str_id (Some x)) docs)))"

text \<open>
  The body of the \<open>try\<close> block of \<open>update_plan\<close>, with the collection as \<open>update_one\<close>
  leaves it.
\<close>

definition update_plan_try ::
  "PlanPayload \<Rightarrow> database \<Rightarrow> (exception + pydict option) \<times> database" where
  "update_plan_try payload d =
     (case ObjectId (user_id payload) of
        Inl e \<Rightarrow> (Inl e, d)
      | Inr i \<Rightarrow>
          (case update_one \<lparr>doc_id = Some i, entries = []\<rparr> [(''plan'', VStr (plan payload))] (d ''user'') of
             (matched_count, users) \<Rightarrow>
               (let d' = d(''user'' := users)
                in if matched_count = 0
                   then (Inl (HTTPException 404 ''User not found''), d')
                   else (Inr (to_str_id (find_one \<lparr>doc_id = Some i, entries = []\<rparr> (d' ''user''))), d'))))"

definition update_plan ::
  "PlanPayload \<Rightarrow> database option \<Rightarrow> (exception + pydict option) \<times> database option" where
  "update_plan payload db =
     (case db of
        None \<Rightarrow> (Inl (HTTPException 500 ''Database not available''), db)
      | Some d \<Rightarrow>
          (if plan payload \<notin> {''free'', ''plus'', ''pro''}
           then (Inl (HTTPException 400 ''Invalid plan''), db)
           else (case update_plan_try payload d of
                   (Inl e, d') \<Rightarrow> (Inl (HTTPException 400 ''Invalid user id''), Some d')
                 | (Inr r, d') \<Rightarrow> (Inr r, Some d'))))"

section \<open>Documents named in the properties\<close>

text \<open>The document that \<open>signup\<close> hands to the store, with the identifier it gets there.\<close>

definition new_user :: "AuthPayload \<Rightarrow> ObjectId \<Rightarrow> pydict" where
  "new_user p i =
     (model_dump (User (email p) (or_str (username p) (split_at_0 (email p)))
                   (hash_password (password p)) ''free''))\<lparr>doc_id := Some i\<rparr>"

text \<open>
  A stored User matches a login request when its email is the request's email and its
  password hash is the digest of the request's password.
\<close>

definition credentials_match :: "AuthPayload \<Rightarrow> pydict \<Rightarrow> bool" where
  "credentials_match p u =
     (map_of (entries u) ''email'' = Some (VStr (email p)) \<and>
      map_of (entries u) ''password_hash'' = Some (VStr (hash_password (password p))))"

text \<open>
  The document that \<open>generate_character\<close> hands to the store, with the identifier it gets
  there.
\<close>

definition new_character :: "CharacterPayload \<Rightarrow> string option \<Rightarrow> ObjectId \<Rightarrow> pydict" where
  "new_character p uid i =
     (model_dump (Character (or_str uid ''guest'') (prompt p) (settings p) (Some preview)))
       \<lparr>doc_id := Some i\<rparr>"

text \<open>
  The store after \<open>n\<close> guest generations of the same prompt on an empty store, the store
  having assigned the identifiers \<open>0\<close> to \<open>n - 1\<close>.
\<close>

definition guest_store :: "nat \<Rightarrow> database" where
  "guest_store n =
     (\<lambda>_. [])(''character'' :=
        map (\<lambda>k. new_character \<lparr>prompt = ''elf'', settings = []\<rparr> None (of_nat k)) [0..<n])"

text \<open>
  A response document has its identifier translated when it has no \<open>"_id"\<close> and holds a
  string under \<open>"id"\<close>.
\<close>

definition id_translated :: "pydict option \<Rightarrow> bool" where
  "id_translated r =
     (case r of
        None \<Rightarrow> False
      | Some x \<Rightarrow>
          doc_id x = None \<and>
          (case map_of (entries x) ''id'' of Some (VStr s) \<Rightarrow> True | _ \<Rightarrow> False))"

text \<open>
  Every document of the two collections carries the identifier that the store gave it.
\<close>

definition store_ok :: "database \<Rightarrow> bool" where
  "store_ok d =
     (list_all (\<lambda>x. doc_id x \<noteq> None) (d ''user'') \<and>
      list_all (\<lambda>x. doc_id x \<noteq> None) (d ''character''))"

section \<open>Identifiers as text\<close>

text \<open>Reading back the 24 digits of an identifier gives the identifier.\<close>

lemma hexval_hexdigit: "n < 16 \<Longrightarrow> hexval (hexdigit n) = Some n"
  by (auto simp: less_Suc_eq numeral_eq_Suc hexdigit_def hexval_def)

lemma length_to_hex: "length (to_hex k n) = k"
  by (induction k arbitrary: n) auto

lemma to_hex_all_hex: "list_all (\<lambda>c. hexval c \<noteq> None) (to_hex k n)"
  by (induction k arbitrary: n) (auto simp: hexval_hexdigit)

lemma foldl_to_hex:
  "foldl (\<lambda>a c. 16 * a + (case hexval c of Some d \<Rightarrow> d | None \<Rightarrow> 0)) a (to_hex k n)
     = a * 16 ^ k + n mod 16 ^ k"
proof (induction k arbitrary: n a)
  case 0
  show ?case by simp
next
  case (Suc k)
  let ?f = "\<lambda>a c. 16 * a + (case hexval c of Some d \<Rightarrow> d | None \<Rightarrow> 0)"
  have split: "n mod (16 * 16 ^ k) = 16 * ((n div 16) mod 16 ^ k) + n mod 16"
    by (simp add: mod_mult2_eq)
  have "foldl ?f a (to_hex (Suc k) n)
          = ?f (foldl ?f a (to_hex k (n div 16))) (hexdigit (n mod 16))"
    by simp
  also have "\<dots> = 16 * (a * 16 ^ k + (n div 16) mod 16 ^ k) + n mod 16"
    by (simp only: Suc.IH) (simp add: hexval_hexdigit)
  also have "\<dots> = a * 16 ^ Suc k + n mod 16 ^ Suc k"
    using split by (simp add: algebra_simps)
  finally show ?case .
qed

lemma from_hex_to_hex: "from_hex (to_hex k n) = n mod 16 ^ k"
  by (simp add: from_hex_def foldl_to_hex)

lemma ObjectId_str: "ObjectId (str_ObjectId i) = Inr i"
proof -
  have "unat i < 2 ^ 96"
    using unsigned_less [of i] by simp
  then have "unat i mod 16 ^ 24 = unat i"
    by simp
  then have val: "of_nat (from_hex (to_hex 24 (unat i))) = i"
    by (simp only: from_hex_to_hex) simp
  have ok: "length (to_hex 24 (unat i)) = 24 \<and> list_all (\<lambda>c. hexval c \<noteq> None) (to_hex 24 (unat i))"
    using length_to_hex to_hex_all_hex by blast
  show ?thesis
    unfolding ObjectId_def str_ObjectId_def using ok val by simp
qed


lemma ObjectId_zeros: "ObjectId ''000000000000000000000000'' = Inr 0"
  by (simp add: ObjectId_def hexval_def from_hex_def)


section \<open>Queries\<close>

lemma find_one_Some: "find_one flt c = Some x \<Longrightarrow> x \<in> set c \<and> matches flt x"
  unfolding find_one_def by (auto simp: find_Some_iff)

lemma find_one_None: "find_one flt c = None \<longleftrightarrow> (\<forall>x\<in>set c. \<not> matches flt x)"
  unfolding find_one_def by (auto simp: find_None_iff)

lemma find_one_append:
  "find_one flt (c @ c') = (case find_one flt c of Some x \<Rightarrow> Some x | None \<Rightarrow> find_one flt c')"
  unfolding find_one_def by (induction c) auto

lemma matches_id: "matches \<lparr>doc_id = Some i, entries = []\<rparr> x \<longleftrightarrow> doc_id x = Some i"
  by (simp add: matches_def)

lemma matches_not_empty:
  "matches flt x \<Longrightarrow> doc_id flt \<noteq> None \<or> entries flt \<noteq> [] \<Longrightarrow> x \<noteq> empty_dict"
  by (cases "entries flt") (auto simp: matches_def empty_dict_def split: option.splits)

lemma truthy_find_one:
  "doc_id flt \<noteq> None \<or> entries flt \<noteq> [] \<Longrightarrow> truthy (find_one flt c) \<longleftrightarrow> find_one flt c \<noteq> None"
  by (cases "find_one flt c") (auto dest!: find_one_Some dest: matches_not_empty)


section \<open>The handlers with the store unavailable\<close>

text \<open>
  Claim C8. With the store unavailable (\<open>db\<close> is \<open>None\<close>), each of the six data handlers
  (signup, login, me, generate character, list characters, update plan) raises the same
  \<open>HTTPException(500, "Database not available")\<close>, and the handlers that can write leave the
  store as it was.
\<close>

theorem unavailable_uniform:
  "signup p i None = (Inl (HTTPException 500 ''Database not available''), None) \<and>
   login p None = Inl (HTTPException 500 ''Database not available'') \<and>
   me uid None = Inl (HTTPException 500 ''Database not available'') \<and>
   generate_character cp u i None = (Inl (HTTPException 500 ''Database not available''), None) \<and>
   list_characters uid l None = Inl (HTTPException 500 ''Database not available'') \<and>
   update_plan pp None = (Inl (HTTPException 500 ''Database not available''), None)"
  by (simp add: signup_def login_def me_def generate_character_def list_characters_def
        update_plan_def)


section \<open>Profile lookup\<close>

text \<open>
  With the store available, \<open>me\<close> raises nothing but the status 400: for a malformed
  identifier, and also where the \<open>try\<close> block raised the status 404.
\<close>

lemma me_invalid_id:
  "ObjectId uid = Inl x \<Longrightarrow> me uid (Some d) = Inl (HTTPException 400 ''Invalid user id'')"
  by (simp add: me_def me_try_def)

lemma me_failure_400:
  "me uid (Some d) = Inl e \<Longrightarrow> e = HTTPException 400 ''Invalid user id''"
  by (auto simp: me_def split: sum.splits)

text \<open>
  Claim C1, at the input where the code departs from it. The string of 24 zeros is a
  structurally valid identifier and the collection \<open>user\<close> is empty, so no stored User
  matches; \<open>me\<close> raises the status 400 of an invalid identifier, not 404: the
  \<open>HTTPException(404)\<close> is raised inside the \<open>try\<close> block and caught by its
  \<open>except Exception\<close>.
\<close>

theorem me_missing_user_400:
  "ObjectId ''000000000000000000000000'' = Inr 0 \<and>
   find_one \<lparr>doc_id = Some 0, entries = []\<rparr> ((\<lambda>_. []) ''user'') = None \<and>
   me ''000000000000000000000000'' (Some (\<lambda>_. [])) = Inl (HTTPException 400 ''Invalid user id'')"
  by (simp add: ObjectId_zeros me_def me_try_def find_one_def)

section \<open>Plan update with an invalid plan\<close>

text \<open>
  Claim C2, as amended. With the store available, a plan-update request whose plan is
  none of \<open>free\<close>, \<open>plus\<close>, \<open>pro\<close> raises \<open>HTTPException(400, "Invalid plan")\<close> and
  the store, so every stored User and its plan, is left as it was.
\<close>

theorem invalid_plan_rejected:
  "plan payload \<notin> {''free'', ''plus'', ''pro''} \<Longrightarrow>
   update_plan payload (Some d) = (Inl (HTTPException 400 ''Invalid plan''), Some d)"
  by (simp add: update_plan_def)

text \<open>
  Claim C2 as stated covers every request, also one that arrives while the store is
  unavailable: there the availability check comes first and the status is 500, not 400.
\<close>

theorem invalid_plan_unavailable_counterexample:
  "plan \<lparr>user_id = ''000000000000000000000001'', plan = ''gold''\<rparr> \<notin> {''free'', ''plus'', ''pro''} \<and>
   update_plan \<lparr>user_id = ''000000000000000000000001'', plan = ''gold''\<rparr> None
     = (Inl (HTTPException 500 ''Database not available''), None) \<and>
   HTTPException 500 ''Database not available'' \<noteq> HTTPException 400 ''Invalid plan''"
  by (simp add: update_plan_def)

theorem invalid_plan_rejected_witness:
  "plan \<lparr>user_id = ''000000000000000000000001'', plan = ''gold''\<rparr> \<notin> {''free'', ''plus'', ''pro''} \<and>
   update_plan \<lparr>user_id = ''000000000000000000000001'', plan = ''gold''\<rparr>
     (Some ((\<lambda>_. [])(''user'' :=
        [\<lparr>doc_id = Some 1,
          entries = [(''email'', VStr ''a@x.com''), (''username'', VStr ''a''),
                     (''password_hash'', VStr (hash_password ''pw1'')), (''plan'', VStr ''free'')]\<rparr>])))
   = (Inl (HTTPException 400 ''Invalid plan''),
      Some ((\<lambda>_. [])(''user'' :=
        [\<lparr>doc_id = Some 1,
          entries = [(''email'', VStr ''a@x.com''), (''username'', VStr ''a''),
                     (''password_hash'', VStr (hash_password ''pw1'')), (''plan'', VStr ''free'')]\<rparr>])))"
proof -
  have h: "plan \<lparr>user_id = ''000000000000000000000001'', plan = ''gold''\<rparr> \<notin> {''free'', ''plus'', ''pro''}"
    by simp
  show ?thesis
    using h invalid_plan_rejected [OF h] by simp
qed

section \<open>Signing up twice\<close>

lemma signup_stores:
  assumes "signup p i db = (Inr r, db')"
  shows "\<exists>d. db = Some d \<and>
             find_one \<lparr>doc_id = None, entries = [(''email'', VStr (email p))]\<rparr> (d ''user'') = None \<and>
             db' = Some (d(''user'' := d ''user'' @ [new_user p i]))"
proof (cases db)
  case None
  with assms show ?thesis by (simp add: signup_def)
next
  case (Some d)
  let ?flt = "\<lparr>doc_id = None, entries = [(''email'', VStr (email p))]\<rparr>"
  have t: "truthy (find_one ?flt (d ''user'')) \<longleftrightarrow> find_one ?flt (d ''user'') \<noteq> None"
    by (rule truthy_find_one) simp
  show ?thesis
  proof (cases "find_one ?flt (d ''user'')")
    case None
    with assms Some t show ?thesis
      by (auto simp: signup_def create_document_def new_user_def Let_def split: sum.splits)
  next
    case (Some x)
    with assms \<open>db = Some d\<close> t show ?thesis
      by (simp add: signup_def)
  qed
qed

lemma new_user_email: "matches \<lparr>doc_id = None, entries = [(''email'', VStr (email p))]\<rparr> (new_user p i)"
  by (simp add: matches_def new_user_def)

text \<open>
  Claim C3. If a signup succeeds and signup is called again with the same email (any
  password, any username), the second call raises
  \<open>HTTPException(400, "Email already registered")\<close>, the conflict error of the handler,
  and leaves the store as the first call left it: no User document is inserted.
\<close>

theorem signup_twice_conflict:
  assumes "signup p1 i1 db = (Inr r, db1)" and "email p2 = email p1"
  shows "signup p2 i2 db1 = (Inl (HTTPException 400 ''Email already registered''), db1)"
proof -
  let ?flt = "\<lparr>doc_id = None, entries = [(''email'', VStr (email p2))]\<rparr>"
  from signup_stores [OF assms(1)] obtain d where
    db1: "db1 = Some (d(''user'' := d ''user'' @ [new_user p1 i1]))"
    by blast
  let ?c = "d ''user'' @ [new_user p1 i1]"
  have "matches ?flt (new_user p1 i1)"
    using new_user_email [of p1 i1] assms(2) by simp
  then have "find_one ?flt ?c \<noteq> None"
    by (auto simp: find_one_None)
  moreover have "truthy (find_one ?flt ?c) \<longleftrightarrow> find_one ?flt ?c \<noteq> None"
    by (rule truthy_find_one) simp
  ultimately have "truthy (find_one ?flt ?c)"
    by simp
  then show ?thesis
    by (simp add: signup_def db1)
qed

theorem signup_twice_conflict_witness:
  "signup \<lparr>email = ''a@x.com'', password = ''pw1'', username = None\<rparr> 1 (Some (\<lambda>_. []))
     = (Inr (Some \<lparr>doc_id = None,
                  entries = [(''email'', VStr ''a@x.com''), (''username'', VStr ''a''),
                             (''password_hash'', VStr (hash_password ''pw1'')),
                             (''plan'', VStr ''free''),
                             (''id'', VStr (str_ObjectId 1))]\<rparr>),
        Some ((\<lambda>_. [])(''user'' :=
          [\<lparr>doc_id = Some 1,
            entries = [(''email'', VStr ''a@x.com''), (''username'', VStr ''a''),
                       (''password_hash'', VStr (hash_password ''pw1'')), (''plan'', VStr ''free'')]\<rparr>]))) \<and>
   signup \<lparr>email = ''a@x.com'', password = ''other'', username = Some ''b''\<rparr> 2
     (Some ((\<lambda>_. [])(''user'' :=
          [\<lparr>doc_id = Some 1,
            entries = [(''email'', VStr ''a@x.com''), (''username'', VStr ''a''),
                       (''password_hash'', VStr (hash_password ''pw1'')), (''plan'', VStr ''free'')]\<rparr>])))
     = (Inl (HTTPException 400 ''Email already registered''),
        Some ((\<lambda>_. [])(''user'' :=
          [\<lparr>doc_id = Some 1,
            entries = [(''email'', VStr ''a@x.com''), (''username'', VStr ''a''),
                       (''password_hash'', VStr (hash_password ''pw1'')), (''plan'', VStr ''free'')]\<rparr>])))"
proof -
  have first:
    "signup \<lparr>email = ''a@x.com'', password = ''pw1'', username = None\<rparr> 1 (Some (\<lambda>_. []))
     = (Inr (Some \<lparr>doc_id = None,
                  entries = [(''email'', VStr ''a@x.com''), (''username'', VStr ''a''),
                             (''password_hash'', VStr (hash_password ''pw1'')),
                             (''plan'', VStr ''free''),
                             (''id'', VStr (str_ObjectId 1))]\<rparr>),
        Some ((\<lambda>_. [])(''user'' :=
          [\<lparr>doc_id = Some 1,
            entries = [(''email'', VStr ''a@x.com''), (''username'', VStr ''a''),
                       (''password_hash'', VStr (hash_password ''pw1'')), (''plan'', VStr ''free'')]\<rparr>])))"
    by (simp add: signup_def find_one_def create_document_def matches_def Let_def
          to_str_id_def empty_dict_def split_at_0_def ObjectId_str)
  show ?thesis
    by (rule conjI [OF first]) (rule signup_twice_conflict [OF first], simp)
qed

section \<open>Login\<close>

lemma to_str_id_Some:
  "doc_id x = Some i \<Longrightarrow>
   to_str_id (Some x) =
     Some \<lparr>doc_id = None, entries = AList.update ''id'' (VStr (str_ObjectId i)) (entries x)\<rparr>"
  by (auto simp: to_str_id_def empty_dict_def)

lemma matches_login:
  "matches \<lparr>doc_id = None,
            entries = [(''email'', VStr (email p)),
                       (''password_hash'', VStr (hash_password (password p)))]\<rparr> u
   \<longleftrightarrow> credentials_match p u"
  by (simp add: matches_def credentials_match_def)

lemma matches_email:
  "matches \<lparr>doc_id = None, entries = [(''email'', VStr e)]\<rparr> u
   \<longleftrightarrow> map_of (entries u) ''email'' = Some (VStr e)"
  by (simp add: matches_def)

lemma login_available:
  "login p (Some d) =
     (case find_one \<lparr>doc_id = None,
                     entries = [(''email'', VStr (email p)),
                                (''password_hash'', VStr (hash_password (password p)))]\<rparr>
             (d ''user'') of
        None \<Rightarrow> Inl (HTTPException 401 ''Invalid credentials'')
      | Some u \<Rightarrow> Inr (to_str_id (Some u)))"
proof -
  let ?flt = "\<lparr>doc_id = None,
               entries = [(''email'', VStr (email p)),
                          (''password_hash'', VStr (hash_password (password p)))]\<rparr>"
  have "truthy (find_one ?flt (d ''user'')) \<longleftrightarrow> find_one ?flt (d ''user'') \<noteq> None"
    by (rule truthy_find_one) simp
  then show ?thesis
    by (cases "find_one ?flt (d ''user'')") (simp_all add: login_def)
qed

text \<open>
  Claim C5, as amended. With the store available: when \<open>login\<close> returns a User, some
  stored User has the request's email and the digest of the request's password, and the
  response is that document with its identifier translated; when no stored User has both
  (a wrong password for an existing email is one such case),
  \<open>login\<close> raises \<open>HTTPException(401, "Invalid credentials")\<close>.
\<close>

theorem login_sound_complete:
  "(\<forall>r. login p (Some d) = Inr r \<longrightarrow>
        (\<exists>u\<in>set (d ''user''). credentials_match p u \<and> r = to_str_id (Some u))) \<and>
   ((\<forall>u\<in>set (d ''user''). \<not> credentials_match p u) \<longrightarrow>
        login p (Some d) = Inl (HTTPException 401 ''Invalid credentials''))"
proof (intro conjI allI impI)
  fix r assume "login p (Some d) = Inr r"
  then obtain u where
    "find_one \<lparr>doc_id = None,
                entries = [(''email'', VStr (email p)),
                           (''password_hash'', VStr (hash_password (password p)))]\<rparr>
        (d ''user'') = Some u" and r: "r = to_str_id (Some u)"
    by (auto simp: login_available split: option.splits)
  from find_one_Some [OF this(1)] r
  show "\<exists>u\<in>set (d ''user''). credentials_match p u \<and> r = to_str_id (Some u)"
    by (auto simp: matches_login)
next
  assume "\<forall>u\<in>set (d ''user''). \<not> credentials_match p u"
  then have "find_one \<lparr>doc_id = None,
                entries = [(''email'', VStr (email p)),
                           (''password_hash'', VStr (hash_password (password p)))]\<rparr>
        (d ''user'') = None"
    by (simp add: find_one_None matches_login)
  then show "login p (Some d) = Inl (HTTPException 401 ''Invalid credentials'')"
    by (simp add: login_available)
qed

text \<open>
  Claim C5 as stated covers every login request, also one that arrives while the store
  is unavailable: no stored User matches then, and the status is 500, not 401.
\<close>

theorem login_unavailable_counterexample:
  "login \<lparr>email = ''a@x.com'', password = ''pw1'', username = None\<rparr> None
     = Inl (HTTPException 500 ''Database not available'') \<and>
   HTTPException 500 ''Database not available'' \<noteq> HTTPException 401 ''Invalid credentials''"
  by (simp add: login_def)

theorem login_sound_complete_witness:
  "credentials_match \<lparr>email = ''a@x.com'', password = ''pw1'', username = None\<rparr>
     \<lparr>doc_id = Some 1,
      entries = [(''email'', VStr ''a@x.com''), (''username'', VStr ''a''),
                 (''password_hash'', VStr (hash_password ''pw1'')), (''plan'', VStr ''free'')]\<rparr> \<and>
   login \<lparr>email = ''a@x.com'', password = ''pw1'', username = None\<rparr>
     (Some ((\<lambda>_. [])(''user'' :=
        [\<lparr>doc_id = Some 1,
          entries = [(''email'', VStr ''a@x.com''), (''username'', VStr ''a''),
                     (''password_hash'', VStr (hash_password ''pw1'')), (''plan'', VStr ''free'')]\<rparr>])))
     = Inr (Some \<lparr>doc_id = None,
                 entries = [(''email'', VStr ''a@x.com''), (''username'', VStr ''a''),
                            (''password_hash'', VStr (hash_password ''pw1'')),
                            (''plan'', VStr ''free''), (''id'', VStr (str_ObjectId 1))]\<rparr>) \<and>
   login \<lparr>email = ''b@x.com'', password = ''pw1'', username = None\<rparr>
     (Some ((\<lambda>_. [])(''user'' :=
        [\<lparr>doc_id = Some 1,
          entries = [(''email'', VStr ''a@x.com''), (''username'', VStr ''a''),
                     (''password_hash'', VStr (hash_password ''pw1'')), (''plan'', VStr ''free'')]\<rparr>])))
     = Inl (HTTPException 401 ''Invalid credentials'')"
proof (intro conjI)
  let ?u = "\<lparr>doc_id = Some 1,
          entries = [(''email'', VStr ''a@x.com''), (''username'', VStr ''a''),
                     (''password_hash'', VStr (hash_password ''pw1'')), (''plan'', VStr ''free'')]\<rparr>"
  let ?d = "(\<lambda>_. [])(''user'' := [?u])"
  show "credentials_match \<lparr>email = ''a@x.com'', password = ''pw1'', username = None\<rparr> ?u"
    by (simp add: credentials_match_def)
  show "login \<lparr>email = ''a@x.com'', password = ''pw1'', username = None\<rparr> (Some ?d)
     = Inr (Some \<lparr>doc_id = None,
                 entries = [(''email'', VStr ''a@x.com''), (''username'', VStr ''a''),
                            (''password_hash'', VStr (hash_password ''pw1'')),
                            (''plan'', VStr ''free''), (''id'', VStr (str_ObjectId 1))]\<rparr>)"
    by (simp add: login_available find_one_def matches_def to_str_id_def empty_dict_def)
  have "\<forall>u\<in>set (?d ''user''). \<not> credentials_match \<lparr>email = ''b@x.com'', password = ''pw1'', username = None\<rparr> u"
    by (simp add: credentials_match_def)
  with login_sound_complete [of "\<lparr>email = ''b@x.com'', password = ''pw1'', username = None\<rparr>" ?d]
  show "login \<lparr>email = ''b@x.com'', password = ''pw1'', username = None\<rparr> (Some ?d)
     = Inl (HTTPException 401 ''Invalid credentials'')"
    by blast
qed

section \<open>Signup followed by login\<close>

text \<open>
  Claim C4. For a store that is available and holds no User with the payload's email,
  signup succeeds, and a login with the same email and password (whatever its username
  field) on the resulting store succeeds and returns a User whose email is the signup
  email and whose \<open>id\<close> is the \<open>id\<close> that signup returned.
\<close>

theorem signup_then_login:
  assumes unseen: "\<forall>u\<in>set (d ''user''). map_of (entries u) ''email'' \<noteq> Some (VStr (email p))"
    and same: "email p' = email p" "password p' = password p"
  shows "\<exists>r db' u.
           signup p i (Some d) = (Inr (Some r), db') \<and>
           login p' db' = Inr (Some u) \<and>
           map_of (entries u) ''email'' = Some (VStr (email p)) \<and>
           map_of (entries r) ''id'' = Some (VStr (str_ObjectId i)) \<and>
           map_of (entries u) ''id'' = map_of (entries r) ''id''"
proof -
  let ?c = "d ''user'' @ [new_user p i]"
  let ?d' = "d(''user'' := ?c)"
  have none: "find_one \<lparr>doc_id = None, entries = [(''email'', VStr (email p))]\<rparr> (d ''user'') = None"
    using unseen by (simp add: find_one_None matches_email)
  have "find_one \<lparr>doc_id = Some i, entries = []\<rparr> ?c \<noteq> None"
    by (simp add: find_one_None matches_id new_user_def)
  then obtain x where x: "find_one \<lparr>doc_id = Some i, entries = []\<rparr> ?c = Some x"
    by blast
  then have xi: "doc_id x = Some i"
    using find_one_Some [OF x] by (simp add: matches_id)
  let ?r = "\<lparr>doc_id = None, entries = AList.update ''id'' (VStr (str_ObjectId i)) (entries x)\<rparr>"
  have s: "signup p i (Some d) = (Inr (Some ?r), Some ?d')"
    using none x to_str_id_Some [OF xi]
    by (simp add: signup_def create_document_def new_user_def ObjectId_str)
  have nomatch: "\<forall>u\<in>set (d ''user''). \<not> credentials_match p' u"
    using unseen same by (auto simp: credentials_match_def)
  let ?lf = "\<lparr>doc_id = None,
                entries = [(''email'', VStr (email p')),
                           (''password_hash'', VStr (hash_password (password p')))]\<rparr>"
  have cm: "credentials_match p' (new_user p i)"
    using same by (simp add: credentials_match_def new_user_def)
  have f1: "find_one ?lf (d ''user'') = None"
    using nomatch by (simp add: find_one_None matches_login)
  have f2: "find_one ?lf [new_user p i] = Some (new_user p i)"
    using cm by (simp add: find_one_def matches_login)
  have f: "find_one ?lf ?c = Some (new_user p i)"
    by (simp add: find_one_append f1 f2)
  let ?u = "\<lparr>doc_id = None, entries = AList.update ''id'' (VStr (str_ObjectId i)) (entries (new_user p i))\<rparr>"
  have l: "login p' (Some ?d') = Inr (Some ?u)"
    using f to_str_id_Some [of "new_user p i" i]
    by (simp add: login_available new_user_def)
  have "map_of (entries ?u) ''email'' = Some (VStr (email p))"
    by (simp add: update_conv' new_user_def)
  moreover have "map_of (entries ?r) ''id'' = Some (VStr (str_ObjectId i))"
    by (simp add: update_conv')
  moreover have "map_of (entries ?u) ''id'' = map_of (entries ?r) ''id''"
    by (simp add: update_conv')
  ultimately show ?thesis
    using s l by blast
qed

theorem signup_then_login_witness:
  "\<exists>r db' u.
     signup \<lparr>email = ''a@x.com'', password = ''pw1'', username = None\<rparr> 1 (Some (\<lambda>_. []))
       = (Inr (Some r), db') \<and>
     login \<lparr>email = ''a@x.com'', password = ''pw1'', username = Some ''ignored''\<rparr> db' = Inr (Some u) \<and>
     map_of (entries u) ''email'' = Some (VStr ''a@x.com'') \<and>
     map_of (entries r) ''id'' = Some (VStr (str_ObjectId 1)) \<and>
     map_of (entries u) ''id'' = map_of (entries r) ''id''"
  using signup_then_login
    [of "\<lambda>_. []" "\<lparr>email = ''a@x.com'', password = ''pw1'', username = None\<rparr>"
        "\<lparr>email = ''a@x.com'', password = ''pw1'', username = Some ''ignored''\<rparr>" 1]
  by simp

section \<open>Listing characters\<close>

lemma str_ObjectId_inj: "str_ObjectId a = str_ObjectId b \<longleftrightarrow> a = b"
proof
  assume "str_ObjectId a = str_ObjectId b"
  then have "ObjectId (str_ObjectId a) = ObjectId (str_ObjectId b)"
    by simp
  then show "a = b"
    by (simp add: ObjectId_str)
qed simp

lemma to_str_id_keeps:
  assumes "k \<noteq> ''id''" and "map_of (entries x) k = Some v"
  shows "\<exists>y. to_str_id (Some x) = Some y \<and> map_of (entries y) k = Some v"
proof (cases "doc_id x")
  case None
  with assms show ?thesis
    by (auto simp: to_str_id_def)
next
  case (Some i)
  with assms show ?thesis
    by (simp add: to_str_id_Some update_conv')
qed

lemma list_characters_available:
  "list_characters uid limit (Some d) =
     Inr (map (\<lambda>x. to_str_id (Some x))
            (take (nat (case limit of None \<Rightarrow> 20 | Some l \<Rightarrow> l))
               (filter (matches \<lparr>doc_id = None, entries = [(''user_id'', VStr uid)]\<rparr>)
                  (d ''character''))))"
  by (simp add: list_characters_def get_documents_def)

text \<open>
  Claim C7, as amended. For every stored collection of Characters, every \<open>user_id\<close> and
  every limit (the default 20 when none is given), the listing succeeds, every returned
  item has \<open>user_id\<close> equal to the query parameter, and when the limit is not negative
  the listing returns at most limit items.
\<close>

theorem list_characters_bounded:
  "\<exists>L. list_characters uid limit (Some d) = Inr L \<and>
        (0 \<le> (case limit of None \<Rightarrow> 20 | Some l \<Rightarrow> l) \<longrightarrow>
           int (length L) \<le> (case limit of None \<Rightarrow> 20 | Some l \<Rightarrow> l)) \<and>
        (\<forall>r\<in>set L. \<exists>x. r = Some x \<and> map_of (entries x) ''user_id'' = Some (VStr uid))"
proof -
  let ?lim = "case limit of None \<Rightarrow> 20 | Some l \<Rightarrow> l"
  let ?docs = "take (nat ?lim)
                 (filter (matches \<lparr>doc_id = None, entries = [(''user_id'', VStr uid)]\<rparr>)
                    (d ''character''))"
  let ?L = "map (\<lambda>x. to_str_id (Some x)) ?docs"
  have len: "0 \<le> ?lim \<longrightarrow> int (length ?L) \<le> ?lim"
    by (cases limit) (auto simp: min_def)
  have "\<forall>x\<in>set ?docs. map_of (entries x) ''user_id'' = Some (VStr uid)"
    by (auto dest!: in_set_takeD simp: matches_def)
  then have "\<forall>r\<in>set ?L. \<exists>x. r = Some x \<and> map_of (entries x) ''user_id'' = Some (VStr uid)"
    using to_str_id_keeps [of "''user_id''"] by fastforce
  with len show ?thesis
    by (simp only: list_characters_available) blast
qed

text \<open>
  Claim C7 as stated covers every limit; the query parameter is an \<open>int\<close>, and no
  listing has at most \<open>-1\<close> items.
\<close>

theorem list_characters_negative_limit_counterexample:
  "list_characters ''guest'' (Some (- 1)) (Some (\<lambda>_. [])) = Inr [] \<and>
   \<not> int (length ([] :: pydict option list)) \<le> - 1"
  by (simp add: list_characters_available)

theorem list_characters_bounded_witness:
  "(0::int) \<le> 1 \<and>
   list_characters ''guest'' (Some 1) (Some (guest_store 2))
     = Inr [to_str_id (Some (new_character \<lparr>prompt = ''elf'', settings = []\<rparr> None 0))] \<and>
   int (length [to_str_id (Some (new_character \<lparr>prompt = ''elf'', settings = []\<rparr> None 0))]) \<le> 1"
proof -
  have e: "list_characters ''guest'' (Some 1) (Some (guest_store 2))
     = Inr [to_str_id (Some (new_character \<lparr>prompt = ''elf'', settings = []\<rparr> None 0))]"
    by (simp add: list_characters_available guest_store_def new_character_def matches_def
          upt_rec [of 0] upt_rec [of 1] upt_rec [of 2])
  from list_characters_bounded [of "''guest''" "Some 1" "guest_store 2"] e
  show ?thesis by auto
qed

section \<open>Generating a character as guest\<close>

lemma in_take_snoc: "length xs < n \<Longrightarrow> x \<in> set (take n (xs @ [x]))"
  by simp

text \<open>
  Claim C6, as amended. With the store available, generating a character with no
  \<open>user_id\<close> succeeds and appends to the collection \<open>character\<close> one document whose
  \<open>user_id\<close> is \<open>"guest"\<close> and whose \<open>preview_url\<close> is the fixed placeholder; a
  listing with \<open>user_id=guest\<close> on the resulting store returns that document (identifier
  translated) whenever fewer guest Characters than the limit (20 by default) were stored
  before.
\<close>

theorem generate_guest_listed:
  assumes room:
    "int (length (filter (matches \<lparr>doc_id = None, entries = [(''user_id'', VStr ''guest'')]\<rparr>)
                    (d ''character'')))
       < (case limit of None \<Rightarrow> 20 | Some l \<Rightarrow> l)"
  shows "\<exists>r L.
           generate_character p None i (Some d)
             = (Inr r, Some (d(''character'' := d ''character'' @ [new_character p None i]))) \<and>
           doc_id (new_character p None i) = Some i \<and>
           map_of (entries (new_character p None i)) ''user_id'' = Some (VStr ''guest'') \<and>
           map_of (entries (new_character p None i)) ''preview_url'' = Some (VStr preview) \<and>
           list_characters ''guest'' limit
               (Some (d(''character'' := d ''character'' @ [new_character p None i]))) = Inr L \<and>
           to_str_id (Some (new_character p None i)) \<in> set L"
proof -
  let ?flt = "\<lparr>doc_id = None, entries = [(''user_id'', VStr ''guest'')]\<rparr>"
  let ?new = "new_character p None i"
  let ?lim = "case limit of None \<Rightarrow> 20 | Some l \<Rightarrow> l"
  have g: "\<exists>r. generate_character p None i (Some d)
             = (Inr r, Some (d(''character'' := d ''character'' @ [?new])))"
    by (simp add: generate_character_def create_document_def new_character_def ObjectId_str)
  have m: "matches ?flt ?new"
    by (simp add: matches_def new_character_def)
  have "length (filter (matches ?flt) (d ''character'')) < nat ?lim"
    using room by linarith
  then have "?new \<in> set (take (nat ?lim) (filter (matches ?flt) (d ''character'') @ [?new]))"
    by (rule in_take_snoc)
  then have "to_str_id (Some ?new)
       \<in> set (map (\<lambda>x. to_str_id (Some x))
                (take (nat ?lim) (filter (matches ?flt) (d ''character'' @ [?new]))))"
    using m by (simp del: take_append)
  then have l: "\<exists>L. list_characters ''guest'' limit
               (Some (d(''character'' := d ''character'' @ [?new]))) = Inr L \<and>
           to_str_id (Some ?new) \<in> set L"
    by (simp add: list_characters_available del: take_append)
  have "doc_id ?new = Some i"
    and "map_of (entries ?new) ''user_id'' = Some (VStr ''guest'')"
    and "map_of (entries ?new) ''preview_url'' = Some (VStr preview)"
    by (simp_all add: new_character_def)
  with g l show ?thesis
    by blast
qed

theorem generate_guest_listed_witness:
  "\<exists>r L.
     generate_character \<lparr>prompt = ''elf'', settings = []\<rparr> None 2 (Some (guest_store 2))
       = (Inr r, Some ((guest_store 2)(''character'' := guest_store 2 ''character'' @
                         [new_character \<lparr>prompt = ''elf'', settings = []\<rparr> None 2]))) \<and>
     doc_id (new_character \<lparr>prompt = ''elf'', settings = []\<rparr> None 2) = Some 2 \<and>
     map_of (entries (new_character \<lparr>prompt = ''elf'', settings = []\<rparr> None 2)) ''user_id''
       = Some (VStr ''guest'') \<and>
     map_of (entries (new_character \<lparr>prompt = ''elf'', settings = []\<rparr> None 2)) ''preview_url''
       = Some (VStr preview) \<and>
     list_characters ''guest'' None
         (Some ((guest_store 2)(''character'' := guest_store 2 ''character'' @
                         [new_character \<lparr>prompt = ''elf'', settings = []\<rparr> None 2]))) = Inr L \<and>
     to_str_id (Some (new_character \<lparr>prompt = ''elf'', settings = []\<rparr> None 2)) \<in> set L"
proof -
  let ?flt = "\<lparr>doc_id = None, entries = [(''user_id'', VStr ''guest'')]\<rparr>"
  have "length (filter (matches ?flt) (guest_store 2 ''character''))
          \<le> length (guest_store 2 ''character'')"
    by (rule length_filter_le)
  also have "\<dots> = 2"
    by (simp add: guest_store_def)
  finally have "int (length (filter (matches ?flt) (guest_store 2 ''character'')))
       < (case (None :: int option) of None \<Rightarrow> 20 | Some l \<Rightarrow> l)"
    by simp
  then show ?thesis
    by (rule generate_guest_listed
          [of "guest_store 2" None "\<lparr>prompt = ''elf'', settings = []\<rparr>" 2])
qed

section \<open>A guest character beyond the limit\<close>

lemma guest_store_ids:
  "x \<in> set (guest_store n ''character'') \<Longrightarrow> \<exists>k<n. doc_id x = Some (of_nat k)"
  by (auto simp: guest_store_def new_character_def)

lemma guest_store_matches:
  "filter (matches \<lparr>doc_id = None, entries = [(''user_id'', VStr ''guest'')]\<rparr>)
     (guest_store n ''character'') = guest_store n ''character''"
  by (rule filter_True) (auto simp: guest_store_def new_character_def matches_def)

lemma length_guest_store: "length (guest_store n ''character'') = n"
  by (simp add: guest_store_def)

lemma small_id_neq_20: "k < 20 \<Longrightarrow> (of_nat k :: ObjectId) \<noteq> 20"
proof
  assume "k < 20" and "(of_nat k :: ObjectId) = 20"
  then have "unat (of_nat k :: ObjectId) = unat (20 :: ObjectId)"
    by simp
  with \<open>k < 20\<close> show False
    by (simp add: unat_of_nat)
qed

lemma to_str_id_id:
  "doc_id x = Some i \<Longrightarrow>
   \<exists>y. to_str_id (Some x) = Some y \<and> map_of (entries y) ''id'' = Some (VStr (str_ObjectId i))"
  by (simp add: to_str_id_Some update_conv')

lemma generate_character_available:
  "generate_character p uid i (Some d) =
     (Inr (to_str_id (find_one \<lparr>doc_id = Some i, entries = []\<rparr>
                        (d ''character'' @ [new_character p uid i]))),
      Some (d(''character'' := d ''character'' @ [new_character p uid i])))"
  by (simp add: generate_character_def create_document_def new_character_def ObjectId_str)

text \<open>
  Claim C6 as stated does not hold once 20 guest Characters are stored: the 21st
  generation succeeds and is stored, but the listing with \<open>user_id=guest\<close> and the
  default limit returns the 20 older documents and not the new one.
\<close>

theorem generate_guest_not_listed_counterexample:
  "generate_character \<lparr>prompt = ''elf'', settings = []\<rparr> None 20 (Some (guest_store 20))
     = (Inr (to_str_id (Some (new_character \<lparr>prompt = ''elf'', settings = []\<rparr> None 20))),
        Some ((guest_store 20)(''character'' := guest_store 20 ''character'' @
                [new_character \<lparr>prompt = ''elf'', settings = []\<rparr> None 20]))) \<and>
   list_characters ''guest'' None
       (Some ((guest_store 20)(''character'' := guest_store 20 ''character'' @
                [new_character \<lparr>prompt = ''elf'', settings = []\<rparr> None 20])))
     = Inr (map (\<lambda>x. to_str_id (Some x)) (guest_store 20 ''character'')) \<and>
   to_str_id (Some (new_character \<lparr>prompt = ''elf'', settings = []\<rparr> None 20))
     \<notin> set (map (\<lambda>x. to_str_id (Some x)) (guest_store 20 ''character''))"
proof (intro conjI)
  let ?p = "\<lparr>prompt = ''elf'', settings = []\<rparr>"
  let ?new = "new_character ?p None 20"
  let ?c = "guest_store 20 ''character''"
  have old: "find_one \<lparr>doc_id = Some 20, entries = []\<rparr> ?c = None"
    using guest_store_ids [of _ 20] small_id_neq_20
    by (fastforce simp: find_one_None matches_id)
  have "find_one \<lparr>doc_id = Some 20, entries = []\<rparr> (?c @ [?new]) = Some ?new"
    by (simp add: find_one_append old) (simp add: find_one_def matches_id new_character_def)
  then show "generate_character ?p None 20 (Some (guest_store 20))
     = (Inr (to_str_id (Some ?new)), Some ((guest_store 20)(''character'' := ?c @ [?new])))"
    by (simp only: generate_character_available)
  have "filter (matches \<lparr>doc_id = None, entries = [(''user_id'', VStr ''guest'')]\<rparr>) (?c @ [?new])
          = ?c @ [?new]"
    by (simp add: guest_store_matches) (simp add: matches_def new_character_def)
  then show "list_characters ''guest'' None (Some ((guest_store 20)(''character'' := ?c @ [?new])))
     = Inr (map (\<lambda>x. to_str_id (Some x)) ?c)"
    by (simp add: list_characters_available length_guest_store)
  show "to_str_id (Some ?new) \<notin> set (map (\<lambda>x. to_str_id (Some x)) ?c)"
  proof
    assume "to_str_id (Some ?new) \<in> set (map (\<lambda>x. to_str_id (Some x)) ?c)"
    then obtain x where x: "x \<in> set ?c" and eq: "to_str_id (Some ?new) = to_str_id (Some x)"
      by auto
    from guest_store_ids [OF x] obtain k where k: "k < 20" "doc_id x = Some (of_nat k)"
      by blast
    have "doc_id ?new = Some 20"
      by (simp add: new_character_def)
    from to_str_id_id [OF this] to_str_id_id [OF k(2)] eq
    have "str_ObjectId (20 :: ObjectId) = str_ObjectId (of_nat k)"
      by auto
    then show False
      using small_id_neq_20 [OF k(1)] by (simp add: str_ObjectId_inj)
  qed
qed

section \<open>Plan update\<close>

lemma update_one_id:
  "update_one \<lparr>doc_id = Some i, entries = []\<rparr> upd c = (n, c') \<Longrightarrow>
     (n = 0 \<and> c' = c \<and> (\<forall>x\<in>set c. doc_id x \<noteq> Some i)) \<or>
     (n = 1 \<and> (\<exists>pre u post. c = pre @ u # post \<and> (\<forall>x\<in>set pre. doc_id x \<noteq> Some i) \<and>
         doc_id u = Some i \<and>
         c' = pre @ u\<lparr>entries := fold (\<lambda>(k, v). AList.update k v) upd (entries u)\<rparr> # post))"
proof (induction c arbitrary: n c')
  case Nil
  then show ?case by simp
next
  case (Cons a c)
  show ?case
  proof (cases "doc_id a = Some i")
    case True
    with Cons.prems have "n = 1"
      and "c' = a\<lparr>entries := fold (\<lambda>(k, v). AList.update k v) upd (entries a)\<rparr> # c"
      by (simp_all add: matches_id)
    with True show ?thesis
      by (intro disjI2 conjI exI [of _ "[]"] exI [of _ a] exI [of _ c]) simp_all
  next
    case False
    obtain m ds where r: "update_one \<lparr>doc_id = Some i, entries = []\<rparr> upd c = (m, ds)"
      by (cases "update_one \<lparr>doc_id = Some i, entries = []\<rparr> upd c")
    with False Cons.prems have n: "n = m" and c': "c' = a # ds"
      by (simp_all add: matches_id)
    from Cons.IH [OF r] show ?thesis
    proof
      assume "m = 0 \<and> ds = c \<and> (\<forall>x\<in>set c. doc_id x \<noteq> Some i)"
      with False n c' show ?thesis by simp
    next
      assume "m = 1 \<and> (\<exists>pre u post. c = pre @ u # post \<and> (\<forall>x\<in>set pre. doc_id x \<noteq> Some i) \<and>
         doc_id u = Some i \<and>
         ds = pre @ u\<lparr>entries := fold (\<lambda>(k, v). AList.update k v) upd (entries u)\<rparr> # post)"
      then obtain pre u post where m: "m = 1" and
        h: "c = pre @ u # post" "\<forall>x\<in>set pre. doc_id x \<noteq> Some i" "doc_id u = Some i"
           "ds = pre @ u\<lparr>entries := fold (\<lambda>(k, v). AList.update k v) upd (entries u)\<rparr> # post"
        by blast
      with False n c' show ?thesis
        by (intro disjI2 conjI exI [of _ "a # pre"] exI [of _ u] exI [of _ post]) simp_all
    qed
  qed
qed

lemma update_plan_success:
  assumes "update_plan pp db = (Inr r, db')"
  shows "\<exists>d i pre u post.
           db = Some d \<and> plan pp \<in> {''free'', ''plus'', ''pro''} \<and>
           ObjectId (user_id pp) = Inr i \<and>
           d ''user'' = pre @ u # post \<and> (\<forall>x\<in>set pre. doc_id x \<noteq> Some i) \<and> doc_id u = Some i \<and>
           db' = Some (d(''user'' :=
                   pre @ u\<lparr>entries := AList.update ''plan'' (VStr (plan pp)) (entries u)\<rparr> # post)) \<and>
           r = to_str_id (find_one \<lparr>doc_id = Some i, entries = []\<rparr>
                 (pre @ u\<lparr>entries := AList.update ''plan'' (VStr (plan pp)) (entries u)\<rparr> # post))"
proof -
  from assms obtain d where d: "db = Some d"
    by (cases db) (simp_all add: update_plan_def)
  from assms d have pl: "plan pp \<in> {''free'', ''plus'', ''pro''}"
    by (auto simp: update_plan_def split: if_splits)
  from assms d pl obtain d1 where t: "update_plan_try pp d = (Inr r, d1)" and db': "db' = Some d1"
    by (auto simp: update_plan_def split: if_splits prod.splits sum.splits)
  from t obtain i where i: "ObjectId (user_id pp) = Inr i"
    by (cases "ObjectId (user_id pp)") (simp_all add: update_plan_try_def)
  obtain n c' where u: "update_one \<lparr>doc_id = Some i, entries = []\<rparr> [(''plan'', VStr (plan pp))] (d ''user'') = (n, c')"
    by (cases "update_one \<lparr>doc_id = Some i, entries = []\<rparr> [(''plan'', VStr (plan pp))] (d ''user'')")
  with t i have n: "n \<noteq> 0" and d1: "d1 = d(''user'' := c')"
    and r: "r = to_str_id (find_one \<lparr>doc_id = Some i, entries = []\<rparr> c')"
    by (auto simp: update_plan_try_def Let_def split: if_splits)
  from update_one_id [OF u] n obtain pre u0 post where
    h: "d ''user'' = pre @ u0 # post" "\<forall>x\<in>set pre. doc_id x \<noteq> Some i" "doc_id u0 = Some i"
       "c' = pre @ u0\<lparr>entries := AList.update ''plan'' (VStr (plan pp)) (entries u0)\<rparr> # post"
    by auto
  with d pl i db' d1 r show ?thesis
    by blast
qed

text \<open>
  Claim C10. When a plan update succeeds, the store was available, the request named a
  valid identifier \<open>i\<close>, and the collection \<open>user\<close> is as before except at the first
  document \<open>u\<close> with that identifier: there only \<open>entries\<close> changes, by setting
  \<open>plan\<close>; the identifier and every entry under another key (email, username,
  password_hash) are as before. No document is added or removed, and every other
  collection is untouched.
\<close>

theorem update_plan_frame:
  assumes "update_plan pp db = (Inr r, db')"
  shows "\<exists>d i pre u post.
           db = Some d \<and> ObjectId (user_id pp) = Inr i \<and>
           d ''user'' = pre @ u # post \<and> (\<forall>x\<in>set pre. doc_id x \<noteq> Some i) \<and> doc_id u = Some i \<and>
           db' = Some (d(''user'' :=
                   pre @ u\<lparr>entries := AList.update ''plan'' (VStr (plan pp)) (entries u)\<rparr> # post)) \<and>
           map_of (AList.update ''plan'' (VStr (plan pp)) (entries u)) ''plan''
             = Some (VStr (plan pp)) \<and>
           (\<forall>k. k \<noteq> ''plan'' \<longrightarrow>
              map_of (AList.update ''plan'' (VStr (plan pp)) (entries u)) k = map_of (entries u) k)"
proof -
  from update_plan_success [OF assms] obtain d i pre u post where
    h: "db = Some d" "ObjectId (user_id pp) = Inr i" "d ''user'' = pre @ u # post"
       "\<forall>x\<in>set pre. doc_id x \<noteq> Some i" "doc_id u = Some i"
       "db' = Some (d(''user'' :=
                   pre @ u\<lparr>entries := AList.update ''plan'' (VStr (plan pp)) (entries u)\<rparr> # post))"
    by blast
  have "map_of (AList.update ''plan'' (VStr (plan pp)) (entries u)) ''plan'' = Some (VStr (plan pp))"
    and "\<forall>k. k \<noteq> ''plan'' \<longrightarrow>
              map_of (AList.update ''plan'' (VStr (plan pp)) (entries u)) k = map_of (entries u) k"
    by (simp_all add: update_conv')
  with h show ?thesis
    by blast
qed

theorem update_plan_frame_witness:
  "update_plan \<lparr>user_id = str_ObjectId 1, plan = ''pro''\<rparr>
     (Some ((\<lambda>_. [])(''user'' :=
        [\<lparr>doc_id = Some 1,
          entries = [(''email'', VStr ''a@x.com''), (''username'', VStr ''a''),
                     (''password_hash'', VStr (hash_password ''pw1'')), (''plan'', VStr ''free'')]\<rparr>])))
   = (Inr (Some \<lparr>doc_id = None,
                 entries = [(''email'', VStr ''a@x.com''), (''username'', VStr ''a''),
                            (''password_hash'', VStr (hash_password ''pw1'')),
                            (''plan'', VStr ''pro''), (''id'', VStr (str_ObjectId 1))]\<rparr>),
      Some ((\<lambda>_. [])(''user'' :=
        [\<lparr>doc_id = Some 1,
          entries = [(''email'', VStr ''a@x.com''), (''username'', VStr ''a''),
                     (''password_hash'', VStr (hash_password ''pw1'')), (''plan'', VStr ''pro'')]\<rparr>]))) \<and>
   ObjectId (user_id \<lparr>user_id = str_ObjectId 1, plan = ''pro''\<rparr>) = Inr 1"
proof -
  have e: "update_plan \<lparr>user_id = str_ObjectId 1, plan = ''pro''\<rparr>
     (Some ((\<lambda>_. [])(''user'' :=
        [\<lparr>doc_id = Some 1,
          entries = [(''email'', VStr ''a@x.com''), (''username'', VStr ''a''),
                     (''password_hash'', VStr (hash_password ''pw1'')), (''plan'', VStr ''free'')]\<rparr>])))
   = (Inr (Some \<lparr>doc_id = None,
                 entries = [(''email'', VStr ''a@x.com''), (''username'', VStr ''a''),
                            (''password_hash'', VStr (hash_password ''pw1'')),
                            (''plan'', VStr ''pro''), (''id'', VStr (str_ObjectId 1))]\<rparr>),
      Some ((\<lambda>_. [])(''user'' :=
        [\<lparr>doc_id = Some 1,
          entries = [(''email'', VStr ''a@x.com''), (''username'', VStr ''a''),
                     (''password_hash'', VStr (hash_password ''pw1'')), (''plan'', VStr ''pro'')]\<rparr>])))"
    by (simp add: update_plan_def update_plan_try_def ObjectId_str matches_def find_one_def
          to_str_id_def empty_dict_def)
  from update_plan_frame [OF e] have "\<exists>i. ObjectId (user_id \<lparr>user_id = str_ObjectId 1, plan = ''pro''\<rparr>) = Inr i"
    by blast
  then have "ObjectId (user_id \<lparr>user_id = str_ObjectId 1, plan = ''pro''\<rparr>) = Inr 1"
    by (simp add: ObjectId_str)
  with e show ?thesis
    by (rule conjI)
qed

section \<open>Identifier translation in responses\<close>

lemma id_translated_to_str_id: "doc_id x = Some i \<Longrightarrow> id_translated (to_str_id (Some x))"
  by (simp add: to_str_id_Some id_translated_def update_conv')

lemma id_translated_find_by_id:
  assumes "find_one \<lparr>doc_id = Some i, entries = []\<rparr> c \<noteq> None"
  shows "id_translated (to_str_id (find_one \<lparr>doc_id = Some i, entries = []\<rparr> c))"
proof -
  from assms obtain x where x: "find_one \<lparr>doc_id = Some i, entries = []\<rparr> c = Some x"
    by blast
  from find_one_Some [OF x] have "doc_id x = Some i"
    by (simp add: matches_id)
  then show ?thesis
    by (simp add: x id_translated_to_str_id)
qed

lemma find_by_id_snoc: "doc_id x = Some i \<Longrightarrow> find_one \<lparr>doc_id = Some i, entries = []\<rparr> (c @ [x]) \<noteq> None"
  by (simp add: find_one_None matches_id)

lemma signup_translates:
  assumes "signup p i (Some d) = (Inr r, db')"
  shows "id_translated r"
proof -
  from assms have "r = to_str_id (find_one \<lparr>doc_id = Some i, entries = []\<rparr> (d ''user'' @ [new_user p i]))"
    by (auto simp: signup_def create_document_def new_user_def ObjectId_str Let_def split: if_splits)
  moreover have "doc_id (new_user p i) = Some i"
    by (simp add: new_user_def)
  ultimately show ?thesis
    by (simp add: id_translated_find_by_id find_by_id_snoc)
qed

lemma generate_translates:
  assumes "generate_character cp u i (Some d) = (Inr r, db')"
  shows "id_translated r"
proof -
  from assms have "r = to_str_id (find_one \<lparr>doc_id = Some i, entries = []\<rparr>
                        (d ''character'' @ [new_character cp u i]))"
    by (simp add: generate_character_available)
  moreover have "doc_id (new_character cp u i) = Some i"
    by (simp add: new_character_def)
  ultimately show ?thesis
    by (simp add: id_translated_find_by_id find_by_id_snoc)
qed

lemma me_translates:
  assumes "me uid (Some d) = Inr r"
  shows "id_translated r"
proof -
  from assms have t: "me_try uid d = Inr r"
    by (auto simp: me_def split: sum.splits)
  then obtain i where i: "ObjectId uid = Inr i"
    by (cases "ObjectId uid") (simp_all add: me_try_def)
  let ?u = "find_one \<lparr>doc_id = Some i, entries = []\<rparr> (d ''user'')"
  from t i have "truthy ?u" and r: "r = to_str_id ?u"
    by (auto simp: me_try_def Let_def split: if_splits)
  then have "?u \<noteq> None"
    by (cases ?u) simp_all
  with r show ?thesis
    by (simp add: id_translated_find_by_id)
qed

lemma update_plan_translates:
  assumes "update_plan pp (Some d) = (Inr r, db')"
  shows "id_translated r"
proof -
  from update_plan_success [OF assms] obtain i pre u post where
    u: "doc_id u = Some i" and
    r: "r = to_str_id (find_one \<lparr>doc_id = Some i, entries = []\<rparr>
                 (pre @ u\<lparr>entries := AList.update ''plan'' (VStr (plan pp)) (entries u)\<rparr> # post))"
    by blast
  have "find_one \<lparr>doc_id = Some i, entries = []\<rparr>
          (pre @ u\<lparr>entries := AList.update ''plan'' (VStr (plan pp)) (entries u)\<rparr> # post) \<noteq> None"
    using u by (simp add: find_one_None matches_id)
  with r show ?thesis
    by (simp add: id_translated_find_by_id)
qed

lemma login_translates:
  assumes "store_ok d" and "login p (Some d) = Inr r"
  shows "id_translated r"
proof -
  from assms(2) obtain u where
    f: "find_one \<lparr>doc_id = None,
                entries = [(''email'', VStr (email p)),
                           (''password_hash'', VStr (hash_password (password p)))]\<rparr>
        (d ''user'') = Some u" and r: "r = to_str_id (Some u)"
    by (auto simp: login_available split: option.splits)
  from find_one_Some [OF f] assms(1) have "doc_id u \<noteq> None"
    by (simp add: store_ok_def list_all_iff)
  with r show ?thesis
    by (auto simp: id_translated_to_str_id)
qed

lemma list_translates:
  assumes "store_ok d" and "list_characters uid l (Some d) = Inr L" and "r \<in> set L"
  shows "id_translated r"
proof -
  from assms(2,3) obtain x where "x \<in> set (d ''character'')" and r: "r = to_str_id (Some x)"
    by (auto simp: list_characters_available dest!: in_set_takeD)
  with assms(1) have "doc_id x \<noteq> None"
    by (simp add: store_ok_def list_all_iff)
  with r show ?thesis
    by (auto simp: id_translated_to_str_id)
qed

text \<open>
  Claim C9. In a store whose documents all carry their identifier, every document
  returned by a successful signup, login, me, generate character or update plan, and
  every item of a successful listing, has no \<open>"_id"\<close> and holds a string under \<open>"id"\<close>.
\<close>

theorem responses_translate_id:
  assumes "store_ok d"
  shows "(\<forall>r db'. signup p i (Some d) = (Inr r, db') \<longrightarrow> id_translated r) \<and>
         (\<forall>r. login p (Some d) = Inr r \<longrightarrow> id_translated r) \<and>
         (\<forall>r. me uid (Some d) = Inr r \<longrightarrow> id_translated r) \<and>
         (\<forall>r db'. generate_character cp u i (Some d) = (Inr r, db') \<longrightarrow> id_translated r) \<and>
         (\<forall>L. list_characters uid l (Some d) = Inr L \<longrightarrow> (\<forall>r\<in>set L. id_translated r)) \<and>
         (\<forall>r db'. update_plan pp (Some d) = (Inr r, db') \<longrightarrow> id_translated r)"
proof (intro conjI allI impI ballI)
  fix r db' assume "signup p i (Some d) = (Inr r, db')"
  then show "id_translated r" by (rule signup_translates)
next
  fix r assume "login p (Some d) = Inr r"
  with assms show "id_translated r" by (rule login_translates)
next
  fix r assume "me uid (Some d) = Inr r"
  then show "id_translated r" by (rule me_translates)
next
  fix r db' assume "generate_character cp u i (Some d) = (Inr r, db')"
  then show "id_translated r" by (rule generate_translates)
next
  fix L r assume "list_characters uid l (Some d) = Inr L" and "r \<in> set L"
  with assms show "id_translated r" by (rule list_translates)
next
  fix r db' assume "update_plan pp (Some d) = (Inr r, db')"
  then show "id_translated r" by (rule update_plan_translates)
qed

text \<open>
  The hypothesis of C9 is an invariant: it holds of the empty store and each handler
  that writes keeps it.
\<close>

lemma store_ok_empty: "store_ok (\<lambda>_. [])"
  by (simp add: store_ok_def)

lemma store_ok_signup:
  "store_ok d \<Longrightarrow> signup p i (Some d) = (r, Some d') \<Longrightarrow> store_ok d'"
  by (auto simp: signup_def create_document_def store_ok_def Let_def
           split: if_splits sum.splits)

lemma store_ok_generate:
  "store_ok d \<Longrightarrow> generate_character cp u i (Some d) = (r, Some d') \<Longrightarrow> store_ok d'"
  by (auto simp: generate_character_available store_ok_def new_character_def)

lemma update_one_ids: "update_one flt upd c = (n, c') \<Longrightarrow> map doc_id c' = map doc_id c"
  by (induction c arbitrary: n c') (auto split: if_splits prod.splits)

lemma store_ok_update_plan:
  assumes "store_ok d" and "update_plan pp (Some d) = (r, Some d')"
  shows "store_ok d'"
proof (cases "d' = d")
  case True
  with assms(1) show ?thesis by simp
next
  case False
  with assms(2) obtain i n c' where
    u: "update_one \<lparr>doc_id = Some i, entries = []\<rparr> [(''plan'', VStr (plan pp))] (d ''user'') = (n, c')"
    and d': "d' = d(''user'' := c')"
    by (auto simp: update_plan_def update_plan_try_def Let_def
             split: if_splits sum.splits prod.splits)
  have "list_all (\<lambda>x. doc_id x \<noteq> None) c' \<longleftrightarrow> list_all (\<lambda>j. j \<noteq> None) (map doc_id c')"
    by (simp add: list_all_iff)
  also have "\<dots> \<longleftrightarrow> list_all (\<lambda>j. j \<noteq> None) (map doc_id (d ''user''))"
    by (simp only: update_one_ids [OF u])
  also have "\<dots> \<longleftrightarrow> list_all (\<lambda>x. doc_id x \<noteq> None) (d ''user'')"
    by (simp add: list_all_iff)
  finally show ?thesis
    using assms(1) by (simp add: store_ok_def d')
qed

theorem responses_translate_id_witness:
  "store_ok ((guest_store 1)(''user'' :=
        [\<lparr>doc_id = Some 1,
          entries = [(''email'', VStr ''a@x.com''), (''username'', VStr ''a''),
                     (''password_hash'', VStr (hash_password ''pw1'')), (''plan'', VStr ''free'')]\<rparr>])) \<and>
   login \<lparr>email = ''a@x.com'', password = ''pw1'', username = None\<rparr>
     (Some ((guest_store 1)(''user'' :=
        [\<lparr>doc_id = Some 1,
          entries = [(''email'', VStr ''a@x.com''), (''username'', VStr ''a''),
                     (''password_hash'', VStr (hash_password ''pw1'')), (''plan'', VStr ''free'')]\<rparr>])))
     = Inr (Some \<lparr>doc_id = None,
                 entries = [(''email'', VStr ''a@x.com''), (''username'', VStr ''a''),
                            (''password_hash'', VStr (hash_password ''pw1'')),
                            (''plan'', VStr ''free''), (''id'', VStr (str_ObjectId 1))]\<rparr>) \<and>
   id_translated (Some \<lparr>doc_id = None,
                 entries = [(''email'', VStr ''a@x.com''), (''username'', VStr ''a''),
                            (''password_hash'', VStr (hash_password ''pw1'')),
                            (''plan'', VStr ''free''), (''id'', VStr (str_ObjectId 1))]\<rparr>)"
proof -
  let ?d = "(guest_store 1)(''user'' :=
        [\<lparr>doc_id = Some 1,
          entries = [(''email'', VStr ''a@x.com''), (''username'', VStr ''a''),
                     (''password_hash'', VStr (hash_password ''pw1'')), (''plan'', VStr ''free'')]\<rparr>])"
  let ?p = "\<lparr>email = ''a@x.com'', password = ''pw1'', username = None\<rparr>"
  let ?r = "Some \<lparr>doc_id = None,
                 entries = [(''email'', VStr ''a@x.com''), (''username'', VStr ''a''),
                            (''password_hash'', VStr (hash_password ''pw1'')),
                            (''plan'', VStr ''free''), (''id'', VStr (str_ObjectId 1))]\<rparr>"
  have ok: "store_ok ?d"
    by (simp add: store_ok_def guest_store_def new_character_def)
  have e: "login ?p (Some ?d) = Inr ?r"
    by (simp add: login_available find_one_def matches_def to_str_id_def empty_dict_def)
  from responses_translate_id [OF ok, where p = ?p] e have "id_translated ?r"
    by blast
  with ok e show ?thesis
    by (intro conjI)
qed

end
